theory Spec2Isabelle
  imports Complex_Main "HOL-Library.Multiset"
begin

section \<open>Python values\<close>

text \<open>
  The source is \<^verbatim>\<open>adlframework/datasource.py\<close>, a Python 2 module (implicit relative
  import, \<^verbatim>\<open>next\<close> as the iterator method, \<^verbatim>\<open>filter\<close> used as a list). Samples,
  controller results and ids are dynamically typed; the fragment of Python values that
  the batching code distinguishes is modelled by \<open>pyval\<close>. Floating-point samples and
  numpy arrays are outside the fragment.
\<close>

datatype pyval =
    PNone
  | PBool bool
  | PInt int
  | PStr string
  | PTuple "pyval list"

text \<open>\<^verbatim>\<open>if sample:\<close> -- Python truthiness.\<close>

fun truthy :: "pyval \<Rightarrow> bool" where
  "truthy PNone = False"
| "truthy (PBool b) = b"
| "truthy (PInt i) = (i \<noteq> 0)"
| "truthy (PStr s) = (s \<noteq> [])"
| "truthy (PTuple xs) = (xs \<noteq> [])"

text \<open>
  \<^verbatim>\<open>tmp == True\<close> and \<^verbatim>\<open>sample == False\<close>: \<^verbatim>\<open>bool\<close> is a subclass of \<^verbatim>\<open>int\<close>
  in Python, so \<^verbatim>\<open>1 == True\<close> and \<^verbatim>\<open>0 == False\<close> hold; no string, tuple or
  \<^verbatim>\<open>None\<close> compares equal to a boolean.
\<close>

fun py_eq_True :: "pyval \<Rightarrow> bool" where
  "py_eq_True (PBool b) = b"
| "py_eq_True (PInt i) = (i = 1)"
| "py_eq_True _ = False"

fun py_eq_False :: "pyval \<Rightarrow> bool" where
  "py_eq_False (PBool b) = (\<not> b)"
| "py_eq_False (PInt i) = (i = 0)"
| "py_eq_False _ = False"

text \<open>
  Exceptions. \<open>Failure\<close> stands for whatever an external callable (an entity's
  \<^verbatim>\<open>get_sample\<close>, a controller) raises; all of them are subclasses of
  \<^verbatim>\<open>Exception\<close>.
\<close>

datatype exn =
    NameError
  | IndexError
  | AttributeError
  | ValueError
  | TypeError
  | Failure string

section \<open>Entities, the shared world, the data source\<close>

type_synonym ref = nat

datatype ident = IntId int | StrId string

text \<open>
  An \<^verbatim>\<open>Entity\<close> object: its \<^verbatim>\<open>unique_id\<close> and its \<^verbatim>\<open>data\<close> attribute, which
  \<^verbatim>\<open>del entity.data\<close> removes (\<open>None\<close>: the attribute is absent).
\<close>

record entity =
  unique_id :: ident
  data :: "pyval option"

text \<open>
  What is shared between objects and processes: the \<^verbatim>\<open>Entity\<close> objects by address,
  the contents of the two \<^verbatim>\<open>multiprocessing\<close> queues, and the state \<open>ext\<close> of the
  external collaborators (whatever a controller or \<^verbatim>\<open>get_sample\<close> can touch).
\<close>

record 'x world =
  heap :: "ref \<Rightarrow> entity"
  entity_queue :: "ref list"
  sample_queue :: "pyval list"
  ext :: 'x

type_synonym 'x controller = "pyval \<Rightarrow> 'x world \<Rightarrow> (exn + pyval) \<times> 'x world"

text \<open>The attributes that \<^verbatim>\<open>__init__\<close> sets on a \<^verbatim>\<open>DataSource\<close>.\<close>

record 'x datasource =
  max_mem_percent :: rat
  verbosity :: int
  retrieval :: "ref option"
  controllers :: "'x controller list"
  prefilters :: "(entity \<Rightarrow> bool) list"
  entities :: "ref list"
  batch_size :: int
  list_pointer :: nat
  timeout :: "rat option"
  workers :: int
  convert_batch_to_np :: bool

text \<open>
  The external functions the batching code calls: \<^verbatim>\<open>entity.get_sample()\<close> of the
  \<^verbatim>\<open>Entity\<close> class, and the value of \<^verbatim>\<open>psutil.virtual_memory().percent/100.0\<close>.
\<close>

record 'x env =
  get_sample :: "ref \<Rightarrow> 'x world \<Rightarrow> (exn + pyval) \<times> 'x world"
  memory_fraction :: "'x world \<Rightarrow> rat"

section \<open>The controller chain\<close>

text \<open>
  \<^verbatim>\<open>
  def process_sample(self, sample):
      for controller in self.controllers:
          tmp = controller(sample)
          sample = sample if tmp == True else tmp
          if sample == False:
              return False
      return sample
  \<close>
  The loop over the controllers; an exception of a controller leaves the method.
\<close>

fun process_sample_loop ::
  "'x controller list \<Rightarrow> pyval \<Rightarrow> 'x world \<Rightarrow> (exn + pyval) \<times> 'x world" where
  "process_sample_loop [] sample w = (Inr sample, w)"
| "process_sample_loop (controller # rest) sample w =
     (case controller sample w of
        (Inl e, w') \<Rightarrow> (Inl e, w')
      | (Inr tmp, w') \<Rightarrow>
          (let sample' = (if py_eq_True tmp then sample else tmp)
           in if py_eq_False sample' then (Inr (PBool False), w')
              else process_sample_loop rest sample' w'))"

definition process_sample ::
  "'x datasource \<Rightarrow> pyval \<Rightarrow> 'x world \<Rightarrow> (exn + pyval) \<times> 'x world" where
  "process_sample self sample w = process_sample_loop (controllers self) sample w"

section \<open>Shuffling and the cursor\<close>

text \<open>
  \<^verbatim>\<open>random.shuffle(x)\<close> of the standard library is the Fisher-Yates loop
  \<^verbatim>\<open>
  for i in reversed(xrange(1, len(x))):
      j = int(random() * (i+1))
      x[i], x[j] = x[j], x[i]
  \<close>
  The generator is modelled by the list of its future outputs: \<open>draw n\<close> takes the
  next one into the range \<open>0 \<le> j < n\<close>. Every run of the generator is such a list, so
  a property proved for all lists holds for every outcome of the shuffle.
\<close>

type_synonym rng = "nat list"

fun draw :: "nat \<Rightarrow> rng \<Rightarrow> nat \<times> rng" where
  "draw n [] = (0, [])"
| "draw n (d # g) = (d mod n, g)"

fun shuffle_loop :: "nat \<Rightarrow> 'a list \<Rightarrow> rng \<Rightarrow> 'a list \<times> rng" where
  "shuffle_loop 0 x g = (x, g)"
| "shuffle_loop (Suc i) x g =
     (case draw (Suc i + 1) g of
        (j, g') \<Rightarrow> shuffle_loop i (x[Suc i := x ! j, j := x ! Suc i]) g')"

definition shuffle :: "'a list \<Rightarrow> rng \<Rightarrow> 'a list \<times> rng" where
  "shuffle x g = shuffle_loop (length x - 1) x g"

text \<open>
  \<^verbatim>\<open>
  def reset_queue(self):
      shuffle(self._entities)
      self.list_pointer = 0
  \<close>
\<close>

definition reset_queue :: "'x datasource \<Rightarrow> rng \<Rightarrow> 'x datasource \<times> rng" where
  "reset_queue self g =
     (case shuffle (entities self) g of
        (es, g') \<Rightarrow> (self\<lparr>entities := es, list_pointer := 0\<rparr>, g'))"

section \<open>The prefilter stage\<close>

text \<open>
  \<^verbatim>\<open>
  def __prefilter(self):
      for i, pf in enumerate(self.prefilters):
          self._entities = filter(pf, tqdm(self._entities))
  \<close>
  (the logging calls left out). In Python 2 \<^verbatim>\<open>filter\<close> over an iterable returns a
  list; a prefilter reads the entity it is given.
\<close>

fun prefilter_loop :: "(entity \<Rightarrow> bool) list \<Rightarrow> (ref \<Rightarrow> entity) \<Rightarrow> ref list \<Rightarrow> ref list" where
  "prefilter_loop [] h es = es"
| "prefilter_loop (pf # pfs) h es = prefilter_loop pfs h (filter (\<lambda>e. pf (h e)) es)"

definition prefilter :: "'x datasource \<Rightarrow> 'x world \<Rightarrow> 'x datasource" where
  "prefilter self w =
     self\<lparr>entities := prefilter_loop (prefilters self) (heap w) (entities self)\<rparr>"

section \<open>The batch assembler\<close>

text \<open>
  The \<^verbatim>\<open>try\<close> block of the single-worker branch:
  \<^verbatim>\<open>
  try:
      sample = entity.get_sample()
      sample = self.process_sample(sample)
      if sample:
          batch.append(sample)
  except Exception as e:
      ...   (logging only)
  \<close>
\<close>

definition try_sample ::
  "'x env \<Rightarrow> 'x datasource \<Rightarrow> ref \<Rightarrow> pyval list \<Rightarrow> 'x world \<Rightarrow> pyval list \<times> 'x world" where
  "try_sample env self entity batch w =
     (case get_sample env entity w of
        (Inl e, w1) \<Rightarrow> (batch, w1)
      | (Inr sample, w1) \<Rightarrow>
          (case process_sample self sample w1 of
             (Inl e, w2) \<Rightarrow> (batch, w2)
           | (Inr sample', w2) \<Rightarrow> (if truthy sample' then batch @ [sample'] else batch, w2)))"

text \<open>
  \<^verbatim>\<open>
  mem = psutil.virtual_memory()
  if mem.percent/100.0 > self.max_mem_percent:
      del entity.data
  \<close>
  Deleting an attribute that the object does not have raises \<^verbatim>\<open>AttributeError\<close>.
\<close>

definition mem_check :: "'x env \<Rightarrow> 'x datasource \<Rightarrow> ref \<Rightarrow> 'x world \<Rightarrow> exn + 'x world" where
  "mem_check env self entity w =
     (if memory_fraction env w > max_mem_percent self then
        (case data (heap w entity) of
           None \<Rightarrow> Inl AttributeError
         | Some d \<Rightarrow> Inr (w\<lparr>heap := (heap w)(entity := (heap w entity)\<lparr>data := None\<rparr>)\<rparr>))
      else Inr w)"

text \<open>
  The \<^verbatim>\<open>while\<close> loop of \<^verbatim>\<open>next\<close>:
  \<^verbatim>\<open>
  while len(batch) < batch_size:
      entity = self._entities[self.list_pointer]
      if self.workers == 1:
          (the try block)
          self.list_pointer += 1
      else:
          sample = self.sample_queue.get()
          batch.append(sample)
      if self.list_pointer >= len(self._entities):
          reset_queue()
      (the memory check)
  \<close>
  The module has no global \<^verbatim>\<open>reset_queue\<close> (the method is \<^verbatim>\<open>self.reset_queue\<close>), so
  the call in the loop raises \<^verbatim>\<open>NameError\<close>, outside the \<^verbatim>\<open>try\<close> block. The result is
  \<open>None\<close> when the call does not return: in the multi-worker branch
  \<^verbatim>\<open>sample_queue.get()\<close> waits on an empty queue, and nothing else runs in the model.
\<close>

function next_loop ::
  "'x env \<Rightarrow> int \<Rightarrow> 'x datasource \<Rightarrow> pyval list \<Rightarrow> 'x world \<Rightarrow>
     (exn + pyval list) option \<times> 'x datasource \<times> 'x world" where
  "next_loop env bs self batch w =
     (if int (length batch) < bs then
        (if list_pointer self < length (entities self) then
           (let entity = entities self ! list_pointer self in
            if workers self = 1 then
              (case try_sample env self entity batch w of
                 (batch1, w1) \<Rightarrow>
                   (let self1 = self\<lparr>list_pointer := list_pointer self + 1\<rparr> in
                    if list_pointer self1 \<ge> length (entities self1)
                    then (Some (Inl NameError), self1, w1)
                    else (case mem_check env self1 entity w1 of
                            Inl e \<Rightarrow> (Some (Inl e), self1, w1)
                          | Inr w2 \<Rightarrow> next_loop env bs self1 batch1 w2)))
            else
              (case sample_queue w of
                 [] \<Rightarrow> (None, self, w)
               | sample # q \<Rightarrow>
                   (let w1 = w\<lparr>sample_queue := q\<rparr>; batch1 = batch @ [sample] in
                    if list_pointer self \<ge> length (entities self)
                    then (Some (Inl NameError), self, w1)
                    else (case mem_check env self entity w1 of
                            Inl e \<Rightarrow> (Some (Inl e), self, w1)
                          | Inr w2 \<Rightarrow> next_loop env bs self batch1 w2))))
         else (Some (Inl IndexError), self, w))
      else (Some (Inr batch), self, w))"
  by pat_completeness auto

termination
  by (relation "measure (\<lambda>(env, bs, self, batch, w).
        if workers self = 1 then length (entities self) - list_pointer self
        else length (sample_queue w))")
     (auto simp: mem_check_def split: if_splits option.splits)

declare next_loop.simps [simp del]

text \<open>
  \<^verbatim>\<open>zip(*batch)\<close>: every sample must be iterable; the result has as many tuples as the
  shortest sample has elements, the k-th tuple holding the k-th element of every
  sample; \<^verbatim>\<open>zip()\<close> of nothing is the empty list.
\<close>

fun py_iter :: "pyval \<Rightarrow> exn + pyval list" where
  "py_iter (PTuple xs) = Inr xs"
| "py_iter (PStr s) = Inr (map (\<lambda>c. PStr [c]) s)"
| "py_iter _ = Inl TypeError"

fun iter_all :: "pyval list \<Rightarrow> exn + pyval list list" where
  "iter_all [] = Inr []"
| "iter_all (v # vs) =
     (case py_iter v of
        Inl e \<Rightarrow> Inl e
      | Inr xs \<Rightarrow> (case iter_all vs of Inl e \<Rightarrow> Inl e | Inr rows \<Rightarrow> Inr (xs # rows)))"

fun shortest :: "'a list list \<Rightarrow> nat" where
  "shortest [] = 0"
| "shortest [r] = length r"
| "shortest (r # rs) = min (length r) (shortest rs)"

definition zip_star :: "pyval list \<Rightarrow> exn + pyval list list" where
  "zip_star batch =
     (case iter_all batch of
        Inl e \<Rightarrow> Inl e
      | Inr rows \<Rightarrow> Inr (map (\<lambda>k. map (\<lambda>r. r ! k) rows) [0..<shortest rows]))"

text \<open>\<^verbatim>\<open>data, labels = ...\<close>: unpacking needs exactly two values.\<close>

fun unpack2 :: "'a list \<Rightarrow> exn + 'a \<times> 'a" where
  "unpack2 [a, b] = Inr (a, b)"
| "unpack2 _ = Inl ValueError"

text \<open>
  A returned sequence is a tuple of \<^verbatim>\<open>zip\<close>, or the \<^verbatim>\<open>numpy\<close> array made of it; the
  length of an array is its first dimension, the length of the tuple it was made of.
\<close>

datatype pyseq = Tuple "pyval list" | NpArray "pyval list"

fun seq_len :: "pyseq \<Rightarrow> nat" where
  "seq_len (Tuple xs) = length xs"
| "seq_len (NpArray xs) = length xs"

text \<open>
  \<^verbatim>\<open>
  def next(self, batch_size=None):
      batch_size = batch_size if batch_size != None else self.batch_size
      batch = []
      (the while loop)
      data, labels = zip(*batch)
      if self.convert_batch_to_np:
          labels = np.array(labels)
          data = np.array(data)
      return data, labels
  \<close>
\<close>

definition ds_next ::
  "'x env \<Rightarrow> 'x datasource \<Rightarrow> int option \<Rightarrow> 'x world \<Rightarrow>
     (exn + pyseq \<times> pyseq) option \<times> 'x datasource \<times> 'x world" where
  "ds_next env self batch_size_arg w =
     (let bs = (case batch_size_arg of Some b \<Rightarrow> b | None \<Rightarrow> batch_size self) in
      case next_loop env bs self [] w of
        (None, self', w') \<Rightarrow> (None, self', w')
      | (Some (Inl e), self', w') \<Rightarrow> (Some (Inl e), self', w')
      | (Some (Inr batch), self', w') \<Rightarrow>
          (case zip_star batch of
             Inl e \<Rightarrow> (Some (Inl e), self', w')
           | Inr cols \<Rightarrow>
               (case unpack2 cols of
                  Inl e \<Rightarrow> (Some (Inl e), self', w')
                | Inr (data', labels) \<Rightarrow>
                    (Some (Inr (if convert_batch_to_np self
                                then (NpArray data', NpArray labels)
                                else (Tuple data', Tuple labels))), self', w'))))"

section \<open>The producer and the workers\<close>

text \<open>
  One pass through the body of the worker's \<^verbatim>\<open>while True\<close> loop:
  \<^verbatim>\<open>
  try:
      entity = self.entity_queue.get()
      sample = entity.get_sample()
      sample = self.process_sample(sample)
      if sample:
          self.sample_queue.put(sample)
  except Exception as e:
      ...   (logging only)
  \<close>
  \<open>None\<close>: the worker waits on the empty entity queue. A \<^verbatim>\<open>put\<close> on a bounded queue
  waits for room and then appends; the model appends.
\<close>

definition async_add_to_sample_queue_body ::
  "'x env \<Rightarrow> 'x datasource \<Rightarrow> 'x world \<Rightarrow> 'x world option" where
  "async_add_to_sample_queue_body env self w =
     (case entity_queue w of
        [] \<Rightarrow> None
      | entity # q \<Rightarrow>
          (case get_sample env entity (w\<lparr>entity_queue := q\<rparr>) of
             (Inl e, w1) \<Rightarrow> Some w1
           | (Inr sample, w1) \<Rightarrow>
               (case process_sample self sample w1 of
                  (Inl e, w2) \<Rightarrow> Some w2
                | (Inr sample', w2) \<Rightarrow>
                    Some (if truthy sample'
                          then w2\<lparr>sample_queue := sample_queue w2 @ [sample']\<rparr>
                          else w2))))"

text \<open>The first \<open>n\<close> passes of the worker's loop (the loop itself has no exit).\<close>

fun async_add_to_sample_queue ::
  "nat \<Rightarrow> 'x env \<Rightarrow> 'x datasource \<Rightarrow> 'x world \<Rightarrow> 'x world option" where
  "async_add_to_sample_queue 0 env self w = Some w"
| "async_add_to_sample_queue (Suc n) env self w =
     (case async_add_to_sample_queue_body env self w of
        None \<Rightarrow> None
      | Some w' \<Rightarrow> async_add_to_sample_queue n env self w')"

text \<open>
  \<^verbatim>\<open>
  def async_fill_queue(self):
      while not self.sample_queue.full():
          self.entity_queue.put(self._entities[self.list_pointer])
          self.list_pointer += 1
          if self.list_pointer >= len(self._entities):
              self.reset_queue()
  \<close>
  The sample queue is filled by the workers and emptied by the consumer, which run
  in other processes: what \<^verbatim>\<open>self.sample_queue.full()\<close> answers at each test of the
  loop condition is an input of the model, the list \<open>fulls\<close>. The result is \<open>None\<close>
  while the loop is still running when the answers run out, \<open>Some (Inr ())\<close> when the
  function has returned.
\<close>

fun async_fill_queue ::
  "bool list \<Rightarrow> 'x datasource \<Rightarrow> rng \<Rightarrow> 'x world \<Rightarrow>
     (exn + unit) option \<times> 'x datasource \<times> rng \<times> 'x world" where
  "async_fill_queue [] self g w = (None, self, g, w)"
| "async_fill_queue (full # fulls) self g w =
     (if \<not> full then
        (if list_pointer self < length (entities self) then
           (let w1 = w\<lparr>entity_queue := entity_queue w @ [entities self ! list_pointer self]\<rparr>;
                self1 = self\<lparr>list_pointer := list_pointer self + 1\<rparr>
            in if list_pointer self1 \<ge> length (entities self1)
               then (case reset_queue self1 g of
                       (self2, g2) \<Rightarrow> async_fill_queue fulls self2 g2 w1)
               else async_fill_queue fulls self1 g w1)
         else (Some (Inl IndexError), self, g, w))
      else (Some (Inr ()), self, g, w))"

section \<open>Ids on disk\<close>













section \<open>Splitting\<close>

text \<open>
  \<^verbatim>\<open>DataSource\<close> objects have an identity: \<^verbatim>\<open>split\<close> changes the object it is given
  and creates a second one. The store maps addresses to objects; \<open>fresh\<close> is the next
  unused address, where \<^verbatim>\<open>copy.copy\<close> puts the new object with the attribute values
  of the old one.
\<close>

record 'x dstore =
  objs :: "ref \<Rightarrow> 'x datasource"
  fresh :: ref

definition copy_copy :: "'x dstore \<Rightarrow> ref \<Rightarrow> ref \<times> 'x dstore" where
  "copy_copy st r = (fresh st, st\<lparr>objs := (objs st)(fresh st := objs st r), fresh := Suc (fresh st)\<rparr>)"

definition set_entities :: "'x dstore \<Rightarrow> ref \<Rightarrow> ref list \<Rightarrow> 'x dstore" where
  "set_entities st r es = st\<lparr>objs := (objs st)(r := (objs st r)\<lparr>entities := es\<rparr>)\<rparr>"

text \<open>
  \<^verbatim>\<open>xs[k:]\<close> and \<^verbatim>\<open>xs[:k]\<close>: a negative bound counts from the end, and bounds
  outside the list are clipped. \<^verbatim>\<open>int(x)\<close> of a float truncates towards zero.
\<close>

definition slice_from :: "'a list \<Rightarrow> int \<Rightarrow> 'a list" where
  "slice_from xs k = (if k \<ge> 0 then drop (nat k) xs else drop (nat (int (length xs) + k)) xs)"

definition slice_to :: "'a list \<Rightarrow> int \<Rightarrow> 'a list" where
  "slice_to xs k = (if k \<ge> 0 then take (nat k) xs else take (nat (int (length xs) + k)) xs)"

definition py_int :: "rat \<Rightarrow> int" where
  "py_int x = (if x \<ge> 0 then \<lfloor>x\<rfloor> else \<lceil>x\<rceil>)"

text \<open>
  \<^verbatim>\<open>
  @staticmethod
  def split(ds1, split_percent=.5):
      break_off = int(len(ds1._entities)*split_percent)
      shuffle(ds1._entities)
      ds2 = copy.copy(ds1)
      ds2._entities = ds1._entities[break_off:]
      ds1._entities = ds1._entities[:break_off]
      return ds1, ds2
  \<close>
  A float is a rational number; the floating-point product, which rounds, is the
  parameter \<open>fmul\<close>.
\<close>

definition ds_split ::
  "(int \<Rightarrow> rat \<Rightarrow> rat) \<Rightarrow> 'x dstore \<Rightarrow> rng \<Rightarrow> ref \<Rightarrow> rat \<Rightarrow> (ref \<times> ref) \<times> 'x dstore \<times> rng" where
  "ds_split fmul st g ds1 split_percent =
     (let break_off = py_int (fmul (int (length (entities (objs st ds1)))) split_percent) in
      case shuffle (entities (objs st ds1)) g of
        (es, g') \<Rightarrow>
          (let st1 = set_entities st ds1 es in
           case copy_copy st1 ds1 of
             (ds2, st2) \<Rightarrow>
               (let st3 = set_entities st2 ds2 (slice_from (entities (objs st2 ds1)) break_off);
                    st4 = set_entities st3 ds1 (slice_to (entities (objs st3 ds1)) break_off)
                in ((ds1, ds2), st4, g'))))"

section \<open>Example objects\<close>

text \<open>Controllers for the examples: they log their call in the external state.\<close>

definition accept_c :: "nat \<Rightarrow> nat list controller" where
  "accept_c k sample w = (Inr (PBool True), w\<lparr>ext := ext w @ [k]\<rparr>)"




definition world0 :: "nat list world" where
  "world0 = \<lparr>heap = (\<lambda>r. \<lparr>unique_id = IntId (int r), data = Some (PInt (int r))\<rparr>),
             entity_queue = [], sample_queue = [], ext = []\<rparr>"

definition ds0 :: "nat list datasource" where
  "ds0 = \<lparr>max_mem_percent = 95 / 100, verbosity = 10, retrieval = Some 0,
           controllers = [], prefilters = [], entities = [0, 1, 2, 3, 4, 5, 6, 7, 8, 9],
           batch_size = 4, list_pointer = 0, timeout = None, workers = 1,
           convert_batch_to_np = False\<rparr>"

text \<open>
  An entity class whose \<^verbatim>\<open>get_sample\<close> returns the pair (id, id + 100) and logs the
  call; memory use at one half.
\<close>

definition env0 :: "nat list env" where
  "env0 = \<lparr>get_sample =
              (\<lambda>r w. (Inr (PTuple [PInt (int r), PInt (int r + 100)]), w\<lparr>ext := ext w @ [r]\<rparr>)),
            memory_fraction = (\<lambda>w. 1 / 2)\<rparr>"

text \<open>The same entity class under memory pressure (99 percent in use).\<close>

definition env_hi :: "nat list env" where
  "env_hi = env0\<lparr>memory_fraction := (\<lambda>w. 99 / 100)\<rparr>"

text \<open>An entity class whose entity 0 yields the sample \<open>0\<close>.\<close>

definition env_zero :: "nat list env" where
  "env_zero = \<lparr>get_sample =
                 (\<lambda>r w. (Inr (if r = 0 then PInt 0 else PTuple [PInt (int r), PInt (int r + 100)]),
                         w\<lparr>ext := ext w @ [r]\<rparr>)),
               memory_fraction = (\<lambda>w. 1 / 2)\<rparr>"

text \<open>A controller that rejects the sample \<open>v\<close> and accepts every other one.\<close>

definition reject_only :: "pyval \<Rightarrow> nat list controller" where
  "reject_only v sample w = (Inr (PBool (sample \<noteq> v)), w)"

text \<open>A data source whose two controllers accept every sample.\<close>

definition ds_accepting :: "nat list datasource" where
  "ds_accepting = ds0\<lparr>controllers := [accept_c 0, accept_c 1]\<rparr>"

text \<open>A data source whose controller rejects the sample of entity 0 only.\<close>

definition ds_rejecting :: "nat list datasource" where
  "ds_rejecting = ds0\<lparr>controllers := [reject_only (PTuple [PInt 0, PInt 100])]\<rparr>"

text \<open>Two prefilters: all ids but \<open>k\<close>, and the integer ids below \<open>k\<close>.\<close>

definition pf_not_id :: "int \<Rightarrow> entity \<Rightarrow> bool" where
  "pf_not_id k e = (unique_id e \<noteq> IntId k)"

definition pf_id_below :: "int \<Rightarrow> entity \<Rightarrow> bool" where
  "pf_id_below k e = (case unique_id e of IntId i \<Rightarrow> i < k | StrId s \<Rightarrow> False)"

text \<open>
  A store whose object 0 is the example data source, and the product in exact
  arithmetic for the float product.
\<close>

definition store0 :: "nat list dstore" where
  "store0 = \<lparr>objs = (\<lambda>r. ds0), fresh = 1\<rparr>"

definition exact_mul :: "int \<Rightarrow> rat \<Rightarrow> rat" where
  "exact_mul n p = of_int n * p"


text \<open>
  A data source with two workers (as \<^verbatim>\<open>DataSource(..., workers=2, queue_size=1)\<close>
  makes it): only such a data source has queues, a producer and workers.
\<close>

definition ds_multi :: "nat list datasource" where
  "ds_multi = ds0\<lparr>workers := 2\<rparr>"


section \<open>Properties of the controller chain\<close>

text \<open>
  A prefix \<open>pre\<close> of the chain has passed the sample on when the loop over \<open>pre\<close>
  ends without an exception and without a rejection: it yields \<open>Inr s1\<close>, and
  (unless \<open>pre\<close> is empty) \<open>s1\<close> is not equal to \<^verbatim>\<open>False\<close>.
\<close>

lemma process_sample_loop_append:
  "process_sample_loop pre sample w = (Inr s1, w1) \<Longrightarrow> pre = [] \<or> \<not> py_eq_False s1 \<Longrightarrow>
   process_sample_loop (pre @ rest) sample w = process_sample_loop rest s1 w1"
proof (induction pre arbitrary: sample w)
  case Nil
  then show ?case by simp
next
  case (Cons c cs)
  from Cons.prems have alive: "\<not> py_eq_False s1" by simp
  obtain r w' where c: "c sample w = (r, w')" by (cases "c sample w")
  show ?case
  proof (cases r)
    case (Inl e)
    with c Cons.prems show ?thesis by simp
  next
    case (Inr tmp)
    let ?s = "if py_eq_True tmp then sample else tmp"
    show ?thesis
    proof (cases "py_eq_False ?s")
      case True
      with c Inr Cons.prems(1) have "s1 = PBool False" by (simp add: Let_def)
      with alive show ?thesis by simp
    next
      case False
      with c Inr Cons.prems(1) have "process_sample_loop cs ?s w' = (Inr s1, w1)"
        by (simp add: Let_def)
      from Cons.IH [OF this] alive
      have "process_sample_loop (cs @ rest) ?s w' = process_sample_loop rest s1 w1"
        by simp
      with c Inr False show ?thesis by (simp add: Let_def)
    qed
  qed
qed



section \<open>Properties of the batch assembler\<close>

lemma try_sample_batch:
  "try_sample env self entity batch w = (batch1, w1) \<Longrightarrow>
   batch1 = batch \<or> (\<exists>s. batch1 = batch @ [s] \<and> truthy s)"
  by (auto simp: try_sample_def split: prod.splits sum.splits if_splits)

lemma next_loop_length:
  "next_loop env bs self batch w = (Some (Inr b), self', w') \<Longrightarrow> int (length batch) \<le> bs \<Longrightarrow>
   int (length b) = bs"
  apply (induction env bs self batch w rule: next_loop.induct)
  apply (subst (asm) (3) next_loop.simps)
  apply (auto simp: Let_def split: if_splits prod.splits sum.splits list.splits
              dest!: try_sample_batch)
  done

lemma next_loop_single_returns:
  "workers self = 1 \<Longrightarrow> fst (next_loop env bs self batch w) \<noteq> None"
  apply (induction env bs self batch w rule: next_loop.induct)
  apply (subst next_loop.simps)
  apply (auto simp: Let_def split: if_splits prod.splits sum.splits list.splits)
  done

lemma next_loop_short:
  "next_loop env bs self [] w = (Some (Inr b), self', w') \<Longrightarrow> bs < 0 \<Longrightarrow> b = []"
  by (subst (asm) next_loop.simps) simp

lemma iter_all_length: "iter_all vs = Inr rows \<Longrightarrow> length rows = length vs"
  by (induction vs arbitrary: rows) (auto split: sum.splits)

lemma zip_star_cols: "zip_star batch = Inr cols \<Longrightarrow> c \<in> set cols \<Longrightarrow> length c = length batch"
  by (auto simp: zip_star_def iter_all_length split: sum.splits)

lemma zip_star_Nil: "zip_star [] = Inr []"
  by (simp add: zip_star_def)

lemma unpack2_Inr: "unpack2 cols = Inr (a, b) \<Longrightarrow> cols = [a, b]"
  by (cases cols rule: unpack2.cases) auto

text \<open>
  C1. With one worker, a call of \<^verbatim>\<open>next\<close> always comes back (it never waits), and it
  either raises an exception or returns a pair of sequences, data and labels, each of
  exactly as many elements as the batch size in force (the argument if given, the
  configured one otherwise). It never returns a shorter batch.
\<close>

theorem next_full_batch_or_failure:
  assumes "workers self = 1"
  shows "(\<exists>e. fst (ds_next env self batch_size_arg w) = Some (Inl e)) \<or>
         (\<exists>d l. fst (ds_next env self batch_size_arg w) = Some (Inr (d, l)) \<and>
            int (seq_len d) = (case batch_size_arg of Some b \<Rightarrow> b | None \<Rightarrow> batch_size self) \<and>
            int (seq_len l) = (case batch_size_arg of Some b \<Rightarrow> b | None \<Rightarrow> batch_size self))"
proof -
  define bs where "bs = (case batch_size_arg of Some b \<Rightarrow> b | None \<Rightarrow> batch_size self)"
  obtain r self' w' where loop: "next_loop env bs self [] w = (r, self', w')"
    by (cases "next_loop env bs self [] w")
  from next_loop_single_returns [OF assms, of env bs "[]" w] loop
  obtain res where r: "r = Some res" by auto
  show ?thesis
  proof (cases res)
    case (Inl e)
    with loop r show ?thesis by (simp add: ds_next_def bs_def [symmetric])
  next
    case (Inr batch)
    show ?thesis
    proof (cases "zip_star batch")
      case (Inl e)
      with loop r Inr show ?thesis by (simp add: ds_next_def bs_def [symmetric])
    next
      case cols: (Inr cols)
      show ?thesis
      proof (cases "unpack2 cols")
        case (Inl e)
        with loop r Inr cols show ?thesis by (simp add: ds_next_def bs_def [symmetric])
      next
        case up: (Inr p)
        obtain a b where p: "p = (a, b)" by (cases p)
        from up p have cs: "cols = [a, b]" by (simp add: unpack2_Inr)
        have "0 \<le> bs"
        proof (rule ccontr)
          assume "\<not> 0 \<le> bs"
          with loop r Inr have "batch = []" by (auto dest: next_loop_short)
          with cols cs show False by (simp add: zip_star_Nil)
        qed
        with loop r Inr have len: "int (length batch) = bs" by (auto dest: next_loop_length)
        from zip_star_cols [OF cols] cs have "length a = length batch" "length b = length batch"
          by simp_all
        with len loop r Inr cols up p show ?thesis
          by (simp add: ds_next_def bs_def [symmetric])
      qed
    qed
  qed
qed

text \<open>Ten entities, batch size 4: the first call returns four samples.\<close>

theorem next_full_batch_or_failure_witness:
  "workers ds0 = 1 \<and>
   fst (ds_next env0 ds0 None world0) =
     Some (Inr (Tuple [PInt 0, PInt 1, PInt 2, PInt 3],
                Tuple [PInt 100, PInt 101, PInt 102, PInt 103])) \<and>
   batch_size ds0 = 4"
  using next_full_batch_or_failure [of ds0 env0 None world0]
  by (simp add: ds_next_def env0_def ds0_def world0_def try_sample_def mem_check_def
        process_sample_def zip_star_def next_loop.simps)

text \<open>
  C2. The scenario of the specification: ten entities with the ids 0 to 9, batch size
  4, one worker, no controllers, no prefilters, three calls of \<^verbatim>\<open>next\<close> in a row. The
  first two calls return the samples of the ids 0 to 3 and 4 to 7. The third call
  samples the ids 8 and 9 (the log of \<^verbatim>\<open>get_sample\<close> calls shows all ten ids), the
  cursor reaches the end of the store, and the call of the undefined global
  \<^verbatim>\<open>reset_queue\<close> raises \<^verbatim>\<open>NameError\<close>: no third batch is returned, the store is not
  reshuffled, and the cursor stays at 10.
\<close>

theorem scenario_third_next_raises:
  "(case ds_next env0 ds0 None world0 of
      (r1, s1, w1) \<Rightarrow>
        (case ds_next env0 s1 None w1 of
           (r2, s2, w2) \<Rightarrow>
             (case ds_next env0 s2 None w2 of
                (r3, s3, w3) \<Rightarrow> (r1, r2, r3, list_pointer s3, entities s3, ext w3))))
   = (Some (Inr (Tuple [PInt 0, PInt 1, PInt 2, PInt 3],
                 Tuple [PInt 100, PInt 101, PInt 102, PInt 103])),
      Some (Inr (Tuple [PInt 4, PInt 5, PInt 6, PInt 7],
                 Tuple [PInt 104, PInt 105, PInt 106, PInt 107])),
      Some (Inl NameError),
      10, [0, 1, 2, 3, 4, 5, 6, 7, 8, 9], [0, 1, 2, 3, 4, 5, 6, 7, 8, 9])"
  by (simp add: ds_next_def env0_def ds0_def world0_def try_sample_def mem_check_def
        process_sample_def zip_star_def next_loop.simps)

section \<open>Falsy samples\<close>

lemma py_eq_False_falsy: "py_eq_False v \<Longrightarrow> \<not> truthy v"
  by (cases v) auto

lemma mem_check_sample_queue:
  "mem_check env self entity w = Inr w' \<Longrightarrow> sample_queue w' = sample_queue w"
  by (auto simp: mem_check_def split: if_splits option.splits)

lemma next_loop_truthy:
  "next_loop env bs self batch w = (Some (Inr b), self', w') \<Longrightarrow>
   workers self = 1 \<or> list_all truthy (sample_queue w) \<Longrightarrow>
   list_all truthy batch \<Longrightarrow> list_all truthy b"
  apply (induction env bs self batch w rule: next_loop.induct)
  apply (subst (asm) (3) next_loop.simps)
  apply (auto simp: Let_def split: if_splits prod.splits sum.splits list.splits
              dest!: try_sample_batch mem_check_sample_queue)
  done

lemma process_sample_loop_keeps_queue:
  "\<forall>c\<in>set cs. \<forall>s w. sample_queue (snd (c s w)) = sample_queue w \<Longrightarrow>
   sample_queue (snd (process_sample_loop cs sample w)) = sample_queue w"
proof (induction cs arbitrary: sample w)
  case Nil
  then show ?case by simp
next
  case (Cons c cs)
  from Cons.prems have c: "sample_queue (snd (c sample w)) = sample_queue w" by simp
  from Cons.prems have rest: "\<forall>c\<in>set cs. \<forall>s w. sample_queue (snd (c s w)) = sample_queue w"
    by simp
  show ?case using c Cons.IH [OF rest]
    by (auto simp: Let_def split: prod.splits sum.splits)
qed

lemma worker_body_truthy:
  assumes gs: "\<forall>r w. sample_queue (snd (get_sample env r w)) = sample_queue w"
      and cs: "\<forall>c\<in>set (controllers self). \<forall>s w. sample_queue (snd (c s w)) = sample_queue w"
      and body: "async_add_to_sample_queue_body env self w = Some w'"
      and inv: "list_all truthy (sample_queue w)"
  shows "list_all truthy (sample_queue w')"
proof -
  from body obtain entity q where eq: "entity_queue w = entity # q"
    by (auto simp: async_add_to_sample_queue_body_def split: list.splits)
  let ?w0 = "w\<lparr>entity_queue := q\<rparr>"
  obtain r1 w1 where g: "get_sample env entity ?w0 = (r1, w1)" by (cases "get_sample env entity ?w0")
  from gs [rule_format, of entity ?w0] g have q1: "sample_queue w1 = sample_queue w" by simp
  show ?thesis
  proof (cases r1)
    case (Inl e)
    with body eq g q1 inv show ?thesis by (simp add: async_add_to_sample_queue_body_def)
  next
    case (Inr sample)
    obtain r2 w2 where p: "process_sample self sample w1 = (r2, w2)"
      by (cases "process_sample self sample w1")
    from process_sample_loop_keeps_queue [OF cs, of sample w1] p q1
    have q2: "sample_queue w2 = sample_queue w" by (simp add: process_sample_def)
    from body eq g Inr p q2 inv show ?thesis
      by (auto simp: async_add_to_sample_queue_body_def split: sum.splits if_splits)
  qed
qed

lemma worker_truthy:
  assumes gs: "\<forall>r w. sample_queue (snd (get_sample env r w)) = sample_queue w"
      and cs: "\<forall>c\<in>set (controllers self). \<forall>s w. sample_queue (snd (c s w)) = sample_queue w"
  shows "async_add_to_sample_queue n env self w = Some w' \<Longrightarrow> list_all truthy (sample_queue w) \<Longrightarrow>
         list_all truthy (sample_queue w')"
proof (induction n arbitrary: w)
  case 0
  then show ?case by simp
next
  case (Suc n)
  from Suc.prems(1) obtain w1 where b: "async_add_to_sample_queue_body env self w = Some w1"
    and r: "async_add_to_sample_queue n env self w1 = Some w'"
    by (auto split: option.splits)
  from worker_body_truthy [OF gs cs b Suc.prems(2)] Suc.IH [OF r] show ?case by simp
qed

text \<open>
  C9. A sample equal to \<^verbatim>\<open>False\<close> (the boolean, or the integer 0) never enters a
  batch. Such a value is falsy. In \<^verbatim>\<open>process_sample\<close>, as soon as the current sample
  after a controller equals \<^verbatim>\<open>False\<close> (also when the controller accepted it, answering
  \<^verbatim>\<open>True\<close>) the method returns \<^verbatim>\<open>False\<close>. A processed sample that is falsy is not
  appended by the single-worker pass and not enqueued by a worker. Hence every sample
  of a batch collected by the loop of \<^verbatim>\<open>next\<close> is truthy and different from \<^verbatim>\<open>False\<close>
  (with several workers: provided the sample queue holds truthy samples), and the
  workers keep the sample queue truthy, as long as the external calls leave the queue
  alone.
\<close>

theorem falsy_sample_never_batched:
  "(py_eq_False v \<longrightarrow> \<not> truthy v) \<and>
   (controllers self = pre @ c # rest \<and> process_sample_loop pre sample w = (Inr s1, w1) \<and>
    (pre = [] \<or> \<not> py_eq_False s1) \<and> c s1 w1 = (Inr tmp, w2) \<and>
    py_eq_False (if py_eq_True tmp then s1 else tmp)
      \<longrightarrow> process_sample self sample w = (Inr (PBool False), w2)) \<and>
   (get_sample env entity ta = (Inr sa, tb) \<and> process_sample self sa tb = (Inr va, tc) \<and>
    \<not> truthy va
      \<longrightarrow> try_sample env self entity batch ta = (batch, tc)) \<and>
   ((workers self = 1 \<or> list_all truthy (sample_queue ua)) \<and>
    next_loop env bs self [] ua = (Some (Inr b), self', ub)
      \<longrightarrow> list_all (\<lambda>s. truthy s \<and> \<not> py_eq_False s) b) \<and>
   (entity_queue xa = entity # q \<and>
    get_sample env entity (xa\<lparr>entity_queue := q\<rparr>) = (Inr se, xb) \<and>
    process_sample self se xb = (Inr ve, xc) \<and> \<not> truthy ve
      \<longrightarrow> async_add_to_sample_queue_body env self xa = Some xc) \<and>
   ((\<forall>r w. sample_queue (snd (get_sample env r w)) = sample_queue w) \<and>
    (\<forall>c\<in>set (controllers self). \<forall>s w. sample_queue (snd (c s w)) = sample_queue w) \<and>
    async_add_to_sample_queue n env self xa = Some xd \<and> list_all truthy (sample_queue xa)
      \<longrightarrow> list_all (\<lambda>s. truthy s \<and> \<not> py_eq_False s) (sample_queue xd))"
proof (intro conjI impI)
  show "\<not> truthy v" if "py_eq_False v" using that by (rule py_eq_False_falsy)
next
  assume a: "controllers self = pre @ c # rest \<and> process_sample_loop pre sample w = (Inr s1, w1) \<and>
    (pre = [] \<or> \<not> py_eq_False s1) \<and> c s1 w1 = (Inr tmp, w2) \<and>
    py_eq_False (if py_eq_True tmp then s1 else tmp)"
  then have "process_sample self sample w = process_sample_loop (c # rest) s1 w1"
    by (simp add: process_sample_def process_sample_loop_append)
  with a show "process_sample self sample w = (Inr (PBool False), w2)" by simp
next
  assume "get_sample env entity ta = (Inr sa, tb) \<and> process_sample self sa tb = (Inr va, tc) \<and>
    \<not> truthy va"
  then show "try_sample env self entity batch ta = (batch, tc)"
    by (simp add: try_sample_def)
next
  assume a: "(workers self = 1 \<or> list_all truthy (sample_queue ua)) \<and>
    next_loop env bs self [] ua = (Some (Inr b), self', ub)"
  then have "list_all truthy b" by (auto dest: next_loop_truthy)
  then show "list_all (\<lambda>s. truthy s \<and> \<not> py_eq_False s) b"
    by (auto simp: list_all_iff dest: py_eq_False_falsy)
next
  assume "entity_queue xa = entity # q \<and>
    get_sample env entity (xa\<lparr>entity_queue := q\<rparr>) = (Inr se, xb) \<and>
    process_sample self se xb = (Inr ve, xc) \<and> \<not> truthy ve"
  then show "async_add_to_sample_queue_body env self xa = Some xc"
    by (simp add: async_add_to_sample_queue_body_def)
next
  assume a: "(\<forall>r w. sample_queue (snd (get_sample env r w)) = sample_queue w) \<and>
    (\<forall>c\<in>set (controllers self). \<forall>s w. sample_queue (snd (c s w)) = sample_queue w) \<and>
    async_add_to_sample_queue n env self xa = Some xd \<and> list_all truthy (sample_queue xa)"
  then have "list_all truthy (sample_queue xd)"
    using worker_truthy [of env self n xa xd] by blast
  then show "list_all (\<lambda>s. truthy s \<and> \<not> py_eq_False s) (sample_queue xd)"
    by (auto simp: list_all_iff dest: py_eq_False_falsy)
qed

text \<open>
  Entity 0 yields the sample \<open>0\<close> and both controllers accept everything: the sample
  is rejected, the batch of two holds the samples of the entities 1 and 2, and a
  worker fed with the entities 0 and 1 enqueues the sample of entity 1 only.
\<close>

theorem falsy_sample_never_batched_witness:
  "\<not> truthy (PInt 0) \<and>
   process_sample ds_accepting (PInt 0) world0 = (Inr (PBool False), world0\<lparr>ext := [0]\<rparr>) \<and>
   try_sample env_zero ds_accepting 0 [] world0 = ([], world0\<lparr>ext := [0, 0]\<rparr>) \<and>
   fst (next_loop env_zero 2 ds_accepting [] world0) = Some (Inr [PTuple [PInt 1, PInt 101], PTuple [PInt 2, PInt 102]]) \<and>
   list_all (\<lambda>s. truthy s \<and> \<not> py_eq_False s) [PTuple [PInt 1, PInt 101], PTuple [PInt 2, PInt 102]] \<and>
   async_add_to_sample_queue_body env_zero ds_accepting (world0\<lparr>entity_queue := [0, 1]\<rparr>)
     = Some (world0\<lparr>entity_queue := [1], ext := [0, 0]\<rparr>) \<and>
   async_add_to_sample_queue (Suc (Suc 0)) env_zero ds_accepting (world0\<lparr>entity_queue := [0, 1]\<rparr>)
     = Some (world0\<lparr>entity_queue := [], sample_queue := [PTuple [PInt 1, PInt 101]], ext := [0, 0, 1, 0, 1]\<rparr>)"
  using falsy_sample_never_batched
    [where v = "PInt 0" and self = ds_accepting and pre = "[]" and c = "accept_c 0" and rest = "[accept_c 1]"
       and sample = "PInt 0" and w = world0 and ?s1.0 = "PInt 0" and ?w1.0 = world0
       and tmp = "PBool True" and ?w2.0 = "world0\<lparr>ext := [0]\<rparr>"
       and env = env_zero and entity = 0 and ta = world0 and sa = "PInt 0"
       and tb = "world0\<lparr>ext := [0]\<rparr>" and va = "PBool False" and tc = "world0\<lparr>ext := [0, 0]\<rparr>"
       and batch = "[]" and ua = world0 and bs = 2
       and b = "[PTuple [PInt 1, PInt 101], PTuple [PInt 2, PInt 102]]"
       and self' = "ds_accepting\<lparr>list_pointer := 3\<rparr>"
       and ub = "world0\<lparr>ext := [0, 0, 1, 0, 1, 2, 0, 1]\<rparr>"
       and xa = "world0\<lparr>entity_queue := [0, 1]\<rparr>" and q = "[1]" and se = "PInt 0"
       and xb = "world0\<lparr>entity_queue := [1], ext := [0]\<rparr>" and ve = "PBool False"
       and xc = "world0\<lparr>entity_queue := [1], ext := [0, 0]\<rparr>" and n = "Suc (Suc 0)"
       and xd = "world0\<lparr>entity_queue := [], sample_queue := [PTuple [PInt 1, PInt 101]],
                         ext := [0, 0, 1, 0, 1]\<rparr>"]
  by (simp add: ds_accepting_def ds0_def env_zero_def world0_def accept_c_def process_sample_def
        try_sample_def mem_check_def async_add_to_sample_queue_body_def next_loop.simps)


section \<open>Properties of the memory check\<close>

text \<open>
  C6, as the claim states it, fails: the memory check runs at the end of a pass of the
  loop whether or not the pass accepted a sample. Under memory pressure the sample of
  entity 0 is rejected (the batch stays empty), and the data of entity 0 is released
  all the same.
\<close>

theorem mem_check_after_rejection:
  "fst (try_sample env_hi ds_rejecting 0 [] world0) = [] \<and>
   data (heap world0 0) = Some (PInt 0) \<and>
   fst (next_loop env_hi 1 ds_rejecting [] world0) = Some (Inr [PTuple [PInt 1, PInt 101]]) \<and>
   data (heap (snd (snd (next_loop env_hi 1 ds_rejecting [] world0))) 0) = None"
  by (simp add: env_hi_def env0_def ds_rejecting_def ds0_def world0_def try_sample_def
        mem_check_def process_sample_def reject_only_def next_loop.simps)

text \<open>
  C6, amended. With one worker, a pass of the batch loop that does not bring the cursor
  to the end of the store ends with the memory check, whatever the \<^verbatim>\<open>try\<close> block did
  (sample appended, rejected or failed): if the memory fraction exceeds
  \<^verbatim>\<open>max_mem_percent\<close>, the \<^verbatim>\<open>data\<close> attribute of the entity read at the cursor is
  deleted (\<^verbatim>\<open>AttributeError\<close> if it has none) and the loop goes on with the batch as the
  \<^verbatim>\<open>try\<close> block left it; at or below the threshold the loop goes on with the world
  unchanged, the entity keeping its data.
\<close>

theorem mem_check_every_pass:
  assumes "workers self = 1"
      and "int (length batch) < bs"
      and "Suc (list_pointer self) < length (entities self)"
      and "entity = entities self ! list_pointer self"
      and "try_sample env self entity batch w = (batch1, w1)"
      and "self1 = self\<lparr>list_pointer := Suc (list_pointer self)\<rparr>"
  shows "next_loop env bs self batch w =
           (if memory_fraction env w1 > max_mem_percent self then
              (if data (heap w1 entity) = None then (Some (Inl AttributeError), self1, w1)
               else next_loop env bs self1 batch1
                      (w1\<lparr>heap := (heap w1)(entity := (heap w1 entity)\<lparr>data := None\<rparr>)\<rparr>))
            else next_loop env bs self1 batch1 w1)"
  using assms by (subst next_loop.simps) (auto simp: Let_def mem_check_def split: option.splits)

text \<open>
  The pass over entity 0 of the example above: the sample is rejected, the batch stays
  empty, and the loop goes on with the data of entity 0 deleted.
\<close>

theorem mem_check_every_pass_witness:
  "next_loop env_hi 1 ds_rejecting [] world0 =
     next_loop env_hi 1 (ds_rejecting\<lparr>list_pointer := 1\<rparr>) []
       (world0\<lparr>heap := (heap world0)(0 := (heap world0 0)\<lparr>data := None\<rparr>), ext := [0]\<rparr>)"
  using mem_check_every_pass
    [where self = ds_rejecting and batch = "[]" and bs = 1 and entity = 0 and env = env_hi
       and w = world0 and ?batch1.0 = "[]" and ?w1.0 = "world0\<lparr>ext := [0]\<rparr>"
       and ?self1.0 = "ds_rejecting\<lparr>list_pointer := 1\<rparr>"]
  by (simp add: env_hi_def env0_def ds_rejecting_def ds0_def world0_def try_sample_def
        process_sample_def reject_only_def)

section \<open>Properties of shuffling and of the producer\<close>

lemma draw_less: "0 < n \<Longrightarrow> fst (draw n g) < n"
  by (cases g) auto

lemma shuffle_loop_length: "length (fst (shuffle_loop k x g)) = length x"
  by (induction k arbitrary: x g) (auto split: prod.splits)

lemma shuffle_loop_mset: "k < length x \<Longrightarrow> mset (fst (shuffle_loop k x g)) = mset x"
proof (induction k arbitrary: x g)
  case 0
  then show ?case by simp
next
  case (Suc i)
  obtain j g' where d: "draw (Suc i + 1) g = (j, g')" by (cases "draw (Suc i + 1) g")
  from draw_less [of "Suc i + 1" g] d have "j < Suc i + 1" by simp
  with Suc.prems have j: "j < length x" by simp
  from Suc.prems j have sw: "mset (x[Suc i := x ! j, j := x ! Suc i]) = mset x"
    by (simp add: mset_swap)
  from Suc.prems have "i < length (x[Suc i := x ! j, j := x ! Suc i])" by simp
  from Suc.IH [OF this, of g'] sw d show ?case by simp
qed

lemma shuffle_length: "length (fst (shuffle x g)) = length x"
  by (simp add: shuffle_def shuffle_loop_length)

lemma shuffle_mset: "mset (fst (shuffle x g)) = mset x"
  by (cases x) (simp_all add: shuffle_def shuffle_loop_mset)

lemma reset_queue_props:
  "list_pointer (fst (reset_queue self g)) = 0"
  "length (entities (fst (reset_queue self g))) = length (entities self)"
  "mset (entities (fst (reset_queue self g))) = mset (entities self)"
  using shuffle_length [of "entities self" g] shuffle_mset [of "entities self" g]
  by (auto simp: reset_queue_def split: prod.splits)

lemma filler_pass:
  "list_pointer self < length (entities self) \<Longrightarrow>
   async_fill_queue (False # fulls) self g w =
     (case (if Suc (list_pointer self) \<ge> length (entities self)
            then reset_queue (self\<lparr>list_pointer := Suc (list_pointer self)\<rparr>) g
            else (self\<lparr>list_pointer := Suc (list_pointer self)\<rparr>, g)) of
        (self2, g2) \<Rightarrow>
          async_fill_queue fulls self2 g2
            (w\<lparr>entity_queue := entity_queue w @ [entities self ! list_pointer self]\<rparr>))"
  by (simp add: Let_def split: prod.splits)

lemma filler_run:
  "list_pointer self < length (entities self) \<Longrightarrow>
   \<exists>self' g' w'. async_fill_queue (replicate n False @ fulls) self g w = async_fill_queue fulls self' g' w' \<and>
      list_pointer self' < length (entities self') \<and> mset (entities self') = mset (entities self) \<and>
      (\<exists>xs. entity_queue w' = entity_queue w @ xs \<and> length xs = n \<and> set xs \<subseteq> set (entities self))"
proof (induction n arbitrary: self g w)
  case 0
  then show ?case by auto
next
  case (Suc n)
  let ?e = "entities self ! list_pointer self"
  let ?w1 = "w\<lparr>entity_queue := entity_queue w @ [?e]\<rparr>"
  let ?s1 = "self\<lparr>list_pointer := Suc (list_pointer self)\<rparr>"
  obtain self2 g2 where p: "(if Suc (list_pointer self) \<ge> length (entities self)
            then reset_queue ?s1 g else (?s1, g)) = (self2, g2)"
    by (cases "(if Suc (list_pointer self) \<ge> length (entities self)
            then reset_queue ?s1 g else (?s1, g))")
  have inv: "list_pointer self2 < length (entities self2) \<and> mset (entities self2) = mset (entities self)"
  proof (cases "Suc (list_pointer self) \<ge> length (entities self)")
    case True
    with p have "self2 = fst (reset_queue ?s1 g)" by (metis fst_conv)
    moreover from Suc.prems have "entities self \<noteq> []" by auto
    ultimately show ?thesis by (simp add: reset_queue_props)
  next
    case False
    with p show ?thesis by auto
  qed
  from inv have seteq: "set (entities self2) = set (entities self)" by (metis mset_eq_setD)
  from Suc.IH [of self2 g2 ?w1] inv
  obtain self' g' w' xs where run: "async_fill_queue (replicate n False @ fulls) self2 g2 ?w1 = async_fill_queue fulls self' g' w'"
    and inv': "list_pointer self' < length (entities self')" "mset (entities self') = mset (entities self2)"
    and q: "entity_queue w' = entity_queue ?w1 @ xs" "length xs = n" "set xs \<subseteq> set (entities self2)"
    by blast
  have "async_fill_queue (replicate (Suc n) False @ fulls) self g w = async_fill_queue fulls self' g' w'"
    using filler_pass [OF Suc.prems, of "replicate n False @ fulls" g w] p run by simp
  moreover have "entity_queue w' = entity_queue w @ (?e # xs)" using q by simp
  moreover have "length (?e # xs) = Suc n" using q by simp
  moreover have "set (?e # xs) \<subseteq> set (entities self)" using q seteq Suc.prems by auto
  ultimately show ?case using inv' inv by metis
qed

lemma filler_no_wrap:
  "list_pointer self + n < length (entities self) \<Longrightarrow>
   async_fill_queue (replicate n False @ fulls) self g w =
     async_fill_queue fulls (self\<lparr>list_pointer := list_pointer self + n\<rparr>) g
       (w\<lparr>entity_queue := entity_queue w @ take n (drop (list_pointer self) (entities self))\<rparr>)"
proof (induction n arbitrary: self w)
  case 0
  then show ?case by simp
next
  case (Suc n)
  let ?s1 = "self\<lparr>list_pointer := Suc (list_pointer self)\<rparr>"
  from Suc.prems have "list_pointer ?s1 + n < length (entities ?s1)" by simp
  note IH = Suc.IH [OF this]
  from Suc.prems have lt: "list_pointer self < length (entities self)" by simp
  have tk: "take (Suc n) (drop (list_pointer self) (entities self)) =
        entities self ! list_pointer self # take n (drop (Suc (list_pointer self)) (entities self))"
    using lt by (simp add: Cons_nth_drop_Suc [symmetric])
  show ?case using Suc.prems IH tk by (simp add: Let_def)
qed


lemma filler_wrap:
  assumes "list_pointer self + Suc m = length (entities self)"
  shows "async_fill_queue (replicate (Suc m) False @ fulls) self g w =
           (case reset_queue (self\<lparr>list_pointer := length (entities self)\<rparr>) g of
              (self2, g2) \<Rightarrow>
                async_fill_queue fulls self2 g2
                  (w\<lparr>entity_queue := entity_queue w @ drop (list_pointer self) (entities self)\<rparr>))"
proof -
  let ?p = "list_pointer self"
  let ?s = "self\<lparr>list_pointer := ?p + m\<rparr>"
  let ?w = "w\<lparr>entity_queue := entity_queue w @ take m (drop ?p (entities self))\<rparr>"
  from assms have lt: "?p + m < length (entities self)" by simp
  have "replicate (Suc m) False @ fulls = replicate m False @ False # fulls"
    by (simp add: replicate_app_Cons_same)
  then have "async_fill_queue (replicate (Suc m) False @ fulls) self g w =
        async_fill_queue (False # fulls) ?s g ?w"
    using filler_no_wrap [OF lt, of "False # fulls" g w] by simp
  also have "\<dots> = (case reset_queue (?s\<lparr>list_pointer := Suc (list_pointer ?s)\<rparr>) g of
        (self2, g2) \<Rightarrow> async_fill_queue fulls self2 g2
           (?w\<lparr>entity_queue := entity_queue ?w @ [entities ?s ! list_pointer ?s]\<rparr>))"
    using lt assms by (subst filler_pass) simp_all
  also have "?s\<lparr>list_pointer := Suc (list_pointer ?s)\<rparr> = self\<lparr>list_pointer := length (entities self)\<rparr>"
    using assms by simp
  also have "?w\<lparr>entity_queue := entity_queue ?w @ [entities ?s ! list_pointer ?s]\<rparr> =
        w\<lparr>entity_queue := entity_queue w @ drop ?p (entities self)\<rparr>"
  proof -
    have "take m (drop ?p (entities self)) @ [entities self ! (?p + m)] =
          take (Suc m) (drop ?p (entities self))"
      using lt by (simp add: take_Suc_conv_app_nth)
    also have "\<dots> = drop ?p (entities self)" using assms by simp
    finally show ?thesis by simp
  qed
  finally show ?thesis .
qed

text \<open>
  C5. The claim: the producer never ends on its own; for the lifetime of the data source
  it pushes the next entity, in cursor order, as long as the sample queue is not full,
  and on wraparound it reshuffles the store and resets the cursor. The code ends the
  producer for good the first time it sees the sample queue full: the loop condition is
  \<^verbatim>\<open>not self.sample_queue.full()\<close>, and the process is started once, in \<^verbatim>\<open>__init__\<close>.
  With two workers, queues of size 1 and batch size 4: the producer pushes entity 0; a
  worker turns it into a sample, which fills the sample queue; the producer sees the
  queue full and returns. From then on the entity queue stays empty: the next pass of a
  worker waits on it, and \<^verbatim>\<open>next\<close>, which takes the one sample and needs three more,
  never returns. (The workers' loop is \<^verbatim>\<open>while True\<close>, "runs continuously in
  background".)
\<close>

theorem filler_returns_when_full:
  "workers ds_multi = 2 \<and>
   async_fill_queue [False, True] ds_multi [] world0
     = (Some (Inr ()), ds_multi\<lparr>list_pointer := 1\<rparr>, [], world0\<lparr>entity_queue := [0]\<rparr>) \<and>
   async_add_to_sample_queue (Suc 0) env0 ds_multi (world0\<lparr>entity_queue := [0]\<rparr>)
     = Some (world0\<lparr>sample_queue := [PTuple [PInt 0, PInt 100]], ext := [0]\<rparr>) \<and>
   async_add_to_sample_queue (Suc (Suc 0)) env0 ds_multi (world0\<lparr>entity_queue := [0]\<rparr>) = None \<and>
   fst (ds_next env0 ds_multi None
          (world0\<lparr>sample_queue := [PTuple [PInt 0, PInt 100]], ext := [0]\<rparr>)) = None"
  by (simp add: ds_multi_def ds0_def world0_def env0_def async_add_to_sample_queue_body_def
        process_sample_def ds_next_def mem_check_def next_loop.simps)

text \<open>
  What the producer does until then is what the claim says. Started with the cursor
  inside the store, it never fails: after \<open>n\<close> tests that found the queue not full it
  is still running, and a test that finds it full ends it. Each pass pushes the entity
  at the cursor and advances the cursor, so \<open>k\<close> passes that stay inside the store push
  the next \<open>k\<close> entities in cursor order; the pass that brings the cursor to the end of
  the store calls \<^verbatim>\<open>reset_queue\<close>, which sets the cursor to 0 and permutes the store.
\<close>

theorem filler_runs_until_full:
  assumes "list_pointer self < length (entities self)"
  shows "async_fill_queue (True # fulls) self g w = (Some (Inr ()), self, g, w) \<and>
         fst (async_fill_queue (replicate n False) self g w) = None \<and>
         fst (async_fill_queue (replicate n False @ True # fulls) self g w) = Some (Inr ()) \<and>
         (list_pointer self + k < length (entities self) \<longrightarrow>
            async_fill_queue (replicate k False @ True # fulls) self g w =
              (Some (Inr ()), self\<lparr>list_pointer := list_pointer self + k\<rparr>, g,
               w\<lparr>entity_queue :=
                    entity_queue w @ take k (drop (list_pointer self) (entities self))\<rparr>)) \<and>
         (list_pointer self + Suc m = length (entities self) \<longrightarrow>
            async_fill_queue (replicate (Suc m) False @ True # fulls) self g w =
              (Some (Inr ()),
               fst (reset_queue (self\<lparr>list_pointer := length (entities self)\<rparr>) g),
               snd (reset_queue (self\<lparr>list_pointer := length (entities self)\<rparr>) g),
               w\<lparr>entity_queue := entity_queue w @ drop (list_pointer self) (entities self)\<rparr>) \<and>
            list_pointer (fst (reset_queue (self\<lparr>list_pointer := length (entities self)\<rparr>) g)) = 0 \<and>
            mset (entities (fst (reset_queue (self\<lparr>list_pointer := length (entities self)\<rparr>) g)))
              = mset (entities self))"
proof (intro conjI impI)
  show "async_fill_queue (True # fulls) self g w = (Some (Inr ()), self, g, w)" by simp
next
  from filler_run [OF assms, of n "[]" g w]
  show "fst (async_fill_queue (replicate n False) self g w) = None" by auto
next
  from filler_run [OF assms, of n "True # fulls" g w]
  show "fst (async_fill_queue (replicate n False @ True # fulls) self g w) = Some (Inr ())"
    by auto
next
  assume "list_pointer self + k < length (entities self)"
  from filler_no_wrap [OF this, of "True # fulls" g w]
  show "async_fill_queue (replicate k False @ True # fulls) self g w =
          (Some (Inr ()), self\<lparr>list_pointer := list_pointer self + k\<rparr>, g,
           w\<lparr>entity_queue := entity_queue w @ take k (drop (list_pointer self) (entities self))\<rparr>)"
    by simp
next
  assume "list_pointer self + Suc m = length (entities self)"
  from filler_wrap [OF this, of "True # fulls" g w]
  show "async_fill_queue (replicate (Suc m) False @ True # fulls) self g w =
          (Some (Inr ()),
           fst (reset_queue (self\<lparr>list_pointer := length (entities self)\<rparr>) g),
           snd (reset_queue (self\<lparr>list_pointer := length (entities self)\<rparr>) g),
           w\<lparr>entity_queue := entity_queue w @ drop (list_pointer self) (entities self)\<rparr>)"
    by (simp split: prod.splits)
next
  show "list_pointer (fst (reset_queue (self\<lparr>list_pointer := length (entities self)\<rparr>) g)) = 0"
    by (simp add: reset_queue_props)
next
  show "mset (entities (fst (reset_queue (self\<lparr>list_pointer := length (entities self)\<rparr>) g)))
          = mset (entities self)"
    by (simp add: reset_queue_props)
qed

text \<open>
  Ten entities, the cursor at 8, the generator giving 3, 5, 1: one pass pushes entity
  8; two passes push 8 and 9, reshuffle the store and set the cursor to 0.
\<close>

theorem filler_runs_until_full_example:
  "list_pointer (ds_multi\<lparr>list_pointer := 8\<rparr>) < length (entities (ds_multi\<lparr>list_pointer := 8\<rparr>)) \<and>
   fst (async_fill_queue (replicate 3 False) (ds_multi\<lparr>list_pointer := 8\<rparr>) [3, 5, 1] world0) = None \<and>
   fst (async_fill_queue [False, True] (ds_multi\<lparr>list_pointer := 8\<rparr>) [3, 5, 1] world0)
     = Some (Inr ()) \<and>
   list_pointer (fst (snd (async_fill_queue [False, True] (ds_multi\<lparr>list_pointer := 8\<rparr>) [3, 5, 1] world0)))
     = 9 \<and>
   entity_queue (snd (snd (snd
       (async_fill_queue [False, True] (ds_multi\<lparr>list_pointer := 8\<rparr>) [3, 5, 1] world0))))
     = [8] \<and>
   fst (async_fill_queue [False, False, True] (ds_multi\<lparr>list_pointer := 8\<rparr>) [3, 5, 1] world0)
     = Some (Inr ()) \<and>
   list_pointer (fst (snd
       (async_fill_queue [False, False, True] (ds_multi\<lparr>list_pointer := 8\<rparr>) [3, 5, 1] world0)))
     = 0 \<and>
   entities (fst (snd
       (async_fill_queue [False, False, True] (ds_multi\<lparr>list_pointer := 8\<rparr>) [3, 5, 1] world0)))
     = [7, 2, 9, 4, 8, 6, 0, 1, 5, 3] \<and>
   entity_queue (snd (snd (snd
       (async_fill_queue [False, False, True] (ds_multi\<lparr>list_pointer := 8\<rparr>) [3, 5, 1] world0))))
     = [8, 9]"
proof -
  have h: "list_pointer (ds_multi\<lparr>list_pointer := 8\<rparr>) < length (entities (ds_multi\<lparr>list_pointer := 8\<rparr>))"
    by (simp add: ds_multi_def ds0_def)
  note run = filler_runs_until_full
    [OF h, where fulls = "[]" and g = "[3, 5, 1]" and w = world0 and n = 3 and k = 1 and m = 1]
  from run
  have running: "fst (async_fill_queue (replicate 3 False) (ds_multi\<lparr>list_pointer := 8\<rparr>) [3, 5, 1] world0) = None"
    by (rule conjunct2 [THEN conjunct1])
  have rest:
    "fst (async_fill_queue [False, True] (ds_multi\<lparr>list_pointer := 8\<rparr>) [3, 5, 1] world0)
       = Some (Inr ()) \<and>
     list_pointer (fst (snd (async_fill_queue [False, True] (ds_multi\<lparr>list_pointer := 8\<rparr>) [3, 5, 1] world0)))
       = 9 \<and>
     entity_queue (snd (snd (snd
         (async_fill_queue [False, True] (ds_multi\<lparr>list_pointer := 8\<rparr>) [3, 5, 1] world0))))
       = [8] \<and>
     fst (async_fill_queue [False, False, True] (ds_multi\<lparr>list_pointer := 8\<rparr>) [3, 5, 1] world0)
       = Some (Inr ()) \<and>
     list_pointer (fst (snd
         (async_fill_queue [False, False, True] (ds_multi\<lparr>list_pointer := 8\<rparr>) [3, 5, 1] world0)))
       = 0 \<and>
     entities (fst (snd
         (async_fill_queue [False, False, True] (ds_multi\<lparr>list_pointer := 8\<rparr>) [3, 5, 1] world0)))
       = [7, 2, 9, 4, 8, 6, 0, 1, 5, 3] \<and>
     entity_queue (snd (snd (snd
         (async_fill_queue [False, False, True] (ds_multi\<lparr>list_pointer := 8\<rparr>) [3, 5, 1] world0))))
       = [8, 9]"
    by code_simp
  show ?thesis by (rule conjI [OF h conjI [OF running rest]])
qed


section \<open>Properties of the prefilter stage\<close>

lemma prefilter_loop_fold:
  "prefilter_loop pfs h es = fold (\<lambda>pf es. filter (\<lambda>e. pf (h e)) es) pfs es"
  by (induction pfs arbitrary: es) simp_all

lemma prefilter_loop_filter:
  "prefilter_loop pfs h es = filter (\<lambda>e. list_all (\<lambda>pf. pf (h e)) pfs) es"
proof (induction pfs arbitrary: es)
  case Nil
  then show ?case by simp
next
  case (Cons pf pfs)
  have "prefilter_loop (pf # pfs) h es = filter (\<lambda>e. list_all (\<lambda>pf. pf (h e)) pfs) (filter (\<lambda>e. pf (h e)) es)"
    by (simp add: Cons.IH)
  also have "\<dots> = filter (\<lambda>e. list_all (\<lambda>pf. pf (h e)) (pf # pfs)) es"
    by (simp add: conj_commute)
  finally show ?case .
qed

text \<open>
  C3. The prefilter stage changes the entity list only. It applies the prefilters one
  after the other, in the declared order, each to the list the previous one left, and
  the result is the list of exactly the entities that satisfy every prefilter, in
  their original order. It is a list (Python 2's \<^verbatim>\<open>filter\<close> builds it before it
  returns): it has a length, at most that of the input, and every index below the
  length yields an entity of the store that satisfies every prefilter.
\<close>

theorem prefilter_in_order:
  "prefilter self w = self\<lparr>entities := entities (prefilter self w)\<rparr> \<and>
   entities (prefilter self w) =
     fold (\<lambda>pf es. filter (\<lambda>e. pf (heap w e)) es) (prefilters self) (entities self) \<and>
   entities (prefilter self w) =
     filter (\<lambda>e. list_all (\<lambda>pf. pf (heap w e)) (prefilters self)) (entities self) \<and>
   length (entities (prefilter self w)) \<le> length (entities self) \<and>
   (\<forall>i < length (entities (prefilter self w)).
      entities (prefilter self w) ! i \<in> set (entities self) \<and>
      list_all (\<lambda>pf. pf (heap w (entities (prefilter self w) ! i))) (prefilters self))"
proof -
  let ?r = "entities (prefilter self w)"
  have f: "?r = filter (\<lambda>e. list_all (\<lambda>pf. pf (heap w e)) (prefilters self)) (entities self)"
    by (simp add: prefilter_def prefilter_loop_filter)
  have "\<forall>i < length ?r. ?r ! i \<in> set ?r" by simp
  then have "\<forall>i < length ?r. ?r ! i \<in> set (entities self) \<and>
      list_all (\<lambda>pf. pf (heap w (?r ! i))) (prefilters self)"
    by (subst (asm) (3) f) auto
  moreover have "length ?r \<le> length (entities self)" by (subst f) simp
  moreover have "?r = fold (\<lambda>pf es. filter (\<lambda>e. pf (heap w e)) es) (prefilters self) (entities self)"
    by (simp add: prefilter_def prefilter_loop_fold)
  moreover have "prefilter self w = self\<lparr>entities := ?r\<rparr>" by (simp add: prefilter_def)
  ultimately show ?thesis using f by blast
qed

text \<open>Ten entities, the filters "not id 3" and "id below 6".\<close>

theorem prefilter_in_order_witness:
  "prefilter (ds0\<lparr>prefilters := [pf_not_id 3, pf_id_below 6]\<rparr>) world0
     = ds0\<lparr>prefilters := [pf_not_id 3, pf_id_below 6], entities := [0, 1, 2, 4, 5]\<rparr> \<and>
   length (entities (prefilter (ds0\<lparr>prefilters := [pf_not_id 3, pf_id_below 6]\<rparr>) world0)) = 5 \<and>
   entities (prefilter (ds0\<lparr>prefilters := [pf_not_id 3, pf_id_below 6]\<rparr>) world0) ! 3 = 4"
  using prefilter_in_order [of "ds0\<lparr>prefilters := [pf_not_id 3, pf_id_below 6]\<rparr>" world0]
  by (simp add: prefilter_def ds0_def world0_def pf_not_id_def pf_id_below_def)


section \<open>Properties of splitting\<close>

lemma slice_append: "slice_to xs k @ slice_from xs k = xs"
  by (simp add: slice_to_def slice_from_def)

lemma slice_to_floor: "0 \<le> x \<Longrightarrow> slice_to xs (py_int x) = take (nat \<lfloor>x\<rfloor>) xs"
  by (simp add: slice_to_def py_int_def)

lemma slice_from_floor: "0 \<le> x \<Longrightarrow> slice_from xs (py_int x) = drop (nat \<lfloor>x\<rfloor>) xs"
  by (simp add: slice_from_def py_int_def)

lemma ds_split_result:
  assumes "ds1 < fresh st"
  shows "ds_split fmul st g ds1 split_percent =
           ((ds1, fresh st),
            st\<lparr>objs := (objs st)
                   (ds1 := (objs st ds1)
                      \<lparr>entities := slice_to (fst (shuffle (entities (objs st ds1)) g))
                          (py_int (fmul (int (length (entities (objs st ds1)))) split_percent))\<rparr>,
                    fresh st := (objs st ds1)
                      \<lparr>entities := slice_from (fst (shuffle (entities (objs st ds1)) g))
                          (py_int (fmul (int (length (entities (objs st ds1)))) split_percent))\<rparr>),
               fresh := Suc (fresh st)\<rparr>,
            snd (shuffle (entities (objs st ds1)) g))"
proof -
  from assms have ne: "ds1 \<noteq> fresh st" by simp
  obtain es g' where sh: "shuffle (entities (objs st ds1)) g = (es, g')"
    by (cases "shuffle (entities (objs st ds1)) g")
  show ?thesis using ne
    by (simp add: ds_split_def sh Let_def copy_copy_def set_entities_def fun_upd_twist)
qed

lemma floor_round_near: "\<bar>\<lfloor>x\<rfloor> - round x\<bar> \<le> 1" for x :: rat
  unfolding round_def by linarith


text \<open>
  C7. \<^verbatim>\<open>split\<close> of an existing data source returns two stores that partition its
  entities: together they hold every entity of the original exactly as often as the
  original did (none dropped, none duplicated), their entity sets unite to the
  original set, and for a store of distinct entities the two sets are disjoint. The
  cut is at the floor of the product of length and percentage (after the shuffle,
  the first store takes the entities before the cut, the second the rest); when the
  product lies between 0 and the length, the first store has floor-of-the-product
  entities, which is within 1 of the rounded product.
\<close>

theorem split_partitions:
  assumes "ds1 < fresh st"
  shows "(let n = length (entities (objs st ds1));
              x = fmul (int n) split_percent;
              st' = fst (snd (ds_split fmul st g ds1 split_percent));
              a = entities (objs st' (fst (fst (ds_split fmul st g ds1 split_percent))));
              b = entities (objs st' (snd (fst (ds_split fmul st g ds1 split_percent))))
          in mset a + mset b = mset (entities (objs st ds1)) \<and>
             set a \<union> set b = set (entities (objs st ds1)) \<and>
             (distinct (entities (objs st ds1)) \<longrightarrow>
                set a \<inter> set b = {} \<and> distinct a \<and> distinct b) \<and>
             a @ b = fst (shuffle (entities (objs st ds1)) g) \<and>
             (0 \<le> x \<longrightarrow> a = take (nat \<lfloor>x\<rfloor>) (a @ b) \<and> b = drop (nat \<lfloor>x\<rfloor>) (a @ b)) \<and>
             (0 \<le> x \<and> x \<le> of_nat n \<longrightarrow>
                int (length a) = \<lfloor>x\<rfloor> \<and> \<bar>int (length a) - round x\<bar> \<le> 1))"
proof -
  define orig where "orig = entities (objs st ds1)"
  define es where "es = fst (shuffle orig g)"
  define x where "x = fmul (int (length orig)) split_percent"
  define a where "a = slice_to es (py_int x)"
  define b where "b = slice_from es (py_int x)"
  from assms have ne: "ds1 \<noteq> fresh st" by simp
  have ab: "a @ b = es" by (simp add: a_def b_def slice_append)
  have perm: "mset es = mset orig" by (simp add: es_def shuffle_mset)
  have len: "length es = length orig" by (simp add: es_def shuffle_length)
  have 1: "mset a + mset b = mset orig" using ab perm by (metis mset_append)
  have 2: "set a \<union> set b = set orig" using ab perm by (metis set_append mset_eq_setD)
  have 3: "set a \<inter> set b = {} \<and> distinct a \<and> distinct b" if "distinct orig"
  proof -
    from that perm have "distinct es" by (metis mset_eq_imp_distinct_iff)
    with ab show ?thesis by (metis distinct_append)
  qed
  have 4: "a = take (nat \<lfloor>x\<rfloor>) (a @ b) \<and> b = drop (nat \<lfloor>x\<rfloor>) (a @ b)" if "0 \<le> x"
    using that ab by (simp add: a_def b_def slice_to_floor slice_from_floor)
  have 5: "int (length a) = \<lfloor>x\<rfloor> \<and> \<bar>int (length a) - round x\<bar> \<le> 1"
    if "0 \<le> x \<and> x \<le> of_nat (length orig)"
  proof -
    from that have "0 \<le> \<lfloor>x\<rfloor>" by simp
    moreover from that have "\<lfloor>x\<rfloor> \<le> int (length orig)" by (simp add: floor_le_iff)
    ultimately have "int (length a) = \<lfloor>x\<rfloor>"
      using that len by (simp add: a_def slice_to_floor)
    with floor_round_near [of x] show ?thesis by simp
  qed
  have r: "fst (fst (ds_split fmul st g ds1 split_percent)) = ds1"
    "snd (fst (ds_split fmul st g ds1 split_percent)) = fresh st"
    "entities (objs (fst (snd (ds_split fmul st g ds1 split_percent))) ds1) = a"
    "entities (objs (fst (snd (ds_split fmul st g ds1 split_percent))) (fresh st)) = b"
    using ne by (simp_all add: ds_split_result [OF assms] a_def b_def es_def x_def orig_def)
  show ?thesis
    unfolding Let_def r orig_def [symmetric] x_def [symmetric]
    using 1 2 3 4 5 ab es_def by blast
qed


text \<open>Ten entities split at 3/10, the generator giving 3, 5, 1.\<close>

theorem split_partitions_witness:
  "0 < fresh store0 \<and>
   fst (ds_split exact_mul store0 [3, 5, 1] 0 (3 / 10)) = (0, 1) \<and>
   entities (objs (fst (snd (ds_split exact_mul store0 [3, 5, 1] 0 (3 / 10)))) 0) = [7, 2, 9] \<and>
   entities (objs (fst (snd (ds_split exact_mul store0 [3, 5, 1] 0 (3 / 10)))) 1)
     = [4, 8, 6, 0, 1, 5, 3] \<and>
   distinct (entities (objs store0 0)) \<and>
   (0::rat) \<le> exact_mul (int (length (entities (objs store0 0)))) (3 / 10) \<and>
   exact_mul (int (length (entities (objs store0 0)))) (3 / 10)
     \<le> of_nat (length (entities (objs store0 0))) \<and>
   round (exact_mul (int (length (entities (objs store0 0)))) (3 / 10)) = 3"
proof -
  have h: "0 < fresh store0" by (simp add: store0_def)
  note t = split_partitions [OF h, of exact_mul "3 / 10" "[3, 5, 1]"]
  have c: "fst (ds_split exact_mul store0 [3, 5, 1] 0 (3 / 10)) = (0, 1) \<and>
   entities (objs (fst (snd (ds_split exact_mul store0 [3, 5, 1] 0 (3 / 10)))) 0) = [7, 2, 9] \<and>
   entities (objs (fst (snd (ds_split exact_mul store0 [3, 5, 1] 0 (3 / 10)))) 1)
     = [4, 8, 6, 0, 1, 5, 3] \<and>
   distinct (entities (objs store0 0)) \<and>
   (0::rat) \<le> exact_mul (int (length (entities (objs store0 0)))) (3 / 10) \<and>
   exact_mul (int (length (entities (objs store0 0)))) (3 / 10)
     \<le> of_nat (length (entities (objs store0 0))) \<and>
   round (exact_mul (int (length (entities (objs store0 0)))) (3 / 10)) = 3"
    by code_simp
  from h t c show ?thesis by blast
qed


text \<open>
  C10. \<^verbatim>\<open>split\<close> returns the address it was given, and a new address. The object at
  the given address is changed in place: its entity list becomes the part of the
  shuffled list before the cut (the first floor-of-the-product entities when the
  product is not negative). The new object has the attribute values of the old one
  but for the entity list, which is the rest of the shuffled list. So the two results
  agree on every attribute other than the entity list (retrieval, controllers,
  prefilters, cursor, batch size and the others), and no other object changes.
\<close>

theorem split_mutates_and_aliases:
  assumes "ds1 < fresh st"
  shows "(let es = fst (shuffle (entities (objs st ds1)) g);
              x = fmul (int (length (entities (objs st ds1)))) split_percent;
              st' = fst (snd (ds_split fmul st g ds1 split_percent))
          in fst (ds_split fmul st g ds1 split_percent) = (ds1, fresh st) \<and>
             fresh st' = Suc (fresh st) \<and>
             objs st' ds1 = (objs st ds1)\<lparr>entities := slice_to es (py_int x)\<rparr> \<and>
             objs st' (fresh st) = (objs st ds1)\<lparr>entities := slice_from es (py_int x)\<rparr> \<and>
             (0 \<le> x \<longrightarrow> entities (objs st' ds1) = take (nat \<lfloor>x\<rfloor>) es) \<and>
             (\<forall>X. (objs st' (fresh st))\<lparr>entities := X\<rparr> = (objs st' ds1)\<lparr>entities := X\<rparr>) \<and>
             (\<forall>r. r \<noteq> ds1 \<and> r \<noteq> fresh st \<longrightarrow> objs st' r = objs st r))"
proof -
  from assms have ne: "ds1 \<noteq> fresh st" by simp
  show ?thesis
    using ne by (simp add: ds_split_result [OF assms] Let_def slice_to_floor)
qed

text \<open>The same split: object 0 is cut down to three entities, object 1 is new.\<close>

theorem split_mutates_and_aliases_witness:
  "0 < fresh store0 \<and>
   fst (ds_split exact_mul store0 [3, 5, 1] 0 (3 / 10)) = (0, fresh store0) \<and>
   fresh (fst (snd (ds_split exact_mul store0 [3, 5, 1] 0 (3 / 10)))) = 2 \<and>
   entities (objs (fst (snd (ds_split exact_mul store0 [3, 5, 1] 0 (3 / 10)))) 0) = [7, 2, 9] \<and>
   entities (objs (fst (snd (ds_split exact_mul store0 [3, 5, 1] 0 (3 / 10)))) 1)
     = [4, 8, 6, 0, 1, 5, 3] \<and>
   list_pointer (objs (fst (snd (ds_split exact_mul store0 [3, 5, 1] 0 (3 / 10)))) 1)
     = list_pointer (objs store0 0) \<and>
   batch_size (objs (fst (snd (ds_split exact_mul store0 [3, 5, 1] 0 (3 / 10)))) 1)
     = batch_size (objs store0 0) \<and>
   (0::rat) \<le> exact_mul (int (length (entities (objs store0 0)))) (3 / 10)"
proof -
  have h: "0 < fresh store0" by (simp add: store0_def)
  note t = split_mutates_and_aliases [OF h, of "[3, 5, 1]" exact_mul "3 / 10"]
  from t have first: "fst (ds_split exact_mul store0 [3, 5, 1] 0 (3 / 10)) = (0, fresh store0)"
    by (simp add: Let_def)
  have c: "fresh (fst (snd (ds_split exact_mul store0 [3, 5, 1] 0 (3 / 10)))) = 2 \<and>
   entities (objs (fst (snd (ds_split exact_mul store0 [3, 5, 1] 0 (3 / 10)))) 0) = [7, 2, 9] \<and>
   entities (objs (fst (snd (ds_split exact_mul store0 [3, 5, 1] 0 (3 / 10)))) 1)
     = [4, 8, 6, 0, 1, 5, 3] \<and>
   list_pointer (objs (fst (snd (ds_split exact_mul store0 [3, 5, 1] 0 (3 / 10)))) 1)
     = list_pointer (objs store0 0) \<and>
   batch_size (objs (fst (snd (ds_split exact_mul store0 [3, 5, 1] 0 (3 / 10)))) 1)
     = batch_size (objs store0 0) \<and>
   (0::rat) \<le> exact_mul (int (length (entities (objs store0 0)))) (3 / 10)"
    by code_simp
  show ?thesis by (rule conjI [OF h conjI [OF first c]])
qed


section \<open>Properties of saving and filtering ids\<close>























end
